theory Spec2Isabelle
  imports Complex_Main
begin

section \<open>Gauge meter reading: the calibration engine of \<open>gauge_read.py\<close>\<close>

text \<open>
  The development embeds the pure part of class \<open>GaugeReader\<close>
  (\<open>src/internal/ai_runtime/gauge-pose/gauge_read.py\<close>): \<open>compute_angle\<close>,
  \<open>angle_to_value\<close> and the loop of \<open>read_gauge\<close>. The pose detector
  (\<open>detect_gauge\<close>, a call into an external model) is not embedded: its output, the
  list of detections, is the input of \<open>read_gauge\<close> here.
\<close>

subsection \<open>Python numbers\<close>

text \<open>
  A finite Python float is modelled by its numeric value, a real number. The functions are
  embedded twice: in exact arithmetic, and, for \<open>angle_to_value\<close>, in binary64 arithmetic,
  where every operation is rounded (see \<open>fp_round\<close> below). In \<open>compute_angle\<close> one more
  feature of IEEE 754 arithmetic is kept, because \<open>math.atan2\<close> branches on it: zero
  carries a sign. \<open>Fl 0\<close> is \<open>+0.0\<close>, \<open>NegZero\<close> is \<open>-0.0\<close>; both have the value 0
  and compare equal in Python. Infinities and NaN are not modelled (pixel coordinates and
  calibration values are finite).
\<close>

datatype pyfloat = NegZero | Fl real

fun fval :: "pyfloat \<Rightarrow> real" where
  "fval NegZero = 0"
| "fval (Fl r) = r"

fun signbit :: "pyfloat \<Rightarrow> bool" where
  "signbit NegZero = True"
| "signbit (Fl r) = (r < 0)"

text \<open>
  Float subtraction \<open>a - b\<close>. A zero result is \<open>+0.0\<close> (round to nearest), except
  for \<open>-0.0 - 0.0\<close>, which is \<open>-0.0\<close>.
\<close>

fun fsub :: "pyfloat \<Rightarrow> pyfloat \<Rightarrow> pyfloat" where
  "fsub (Fl a) (Fl b) = Fl (a - b)"
| "fsub (Fl a) NegZero = Fl a"
| "fsub NegZero (Fl b) = (if b = 0 then NegZero else Fl (- b))"
| "fsub NegZero NegZero = Fl 0"

text \<open>Unary minus flips the sign, also the sign of a zero.\<close>

fun fneg :: "pyfloat \<Rightarrow> pyfloat" where
  "fneg NegZero = Fl 0"
| "fneg (Fl a) = (if a = 0 then NegZero else Fl (- a))"

text \<open>\<open>copysign m y\<close> for a magnitude \<open>m \<ge> 0\<close>: the float of magnitude \<open>m\<close> and the sign of \<open>y\<close>.\<close>

definition copysign :: "real \<Rightarrow> pyfloat \<Rightarrow> pyfloat" where
  "copysign m y = (if signbit y then (if m = 0 then NegZero else Fl (- m)) else Fl m)"

text \<open>
  The library function \<open>math.atan2(y, x)\<close> on finite floats, as CPython and C99 specify
  it: for \<open>y = \<plusminus>0\<close> the result is \<open>\<plusminus>0\<close> when \<open>x\<close> has a positive sign and
  \<open>\<plusminus>\<pi>\<close> when \<open>x\<close> has a negative sign; otherwise it is the angle of the point
  \<open>(x, y)\<close>, written with \<open>arctan\<close> by quadrant.
\<close>

definition atan2 :: "pyfloat \<Rightarrow> pyfloat \<Rightarrow> pyfloat" where
  "atan2 y x =
     (if fval y = 0 then
        (if \<not> signbit x then copysign 0 y else copysign pi y)
      else Fl (if 0 < fval x then arctan (fval y / fval x)
               else if fval x < 0 then
                 (if 0 < fval y then arctan (fval y / fval x) + pi
                  else arctan (fval y / fval x) - pi)
               else if 0 < fval y then pi / 2 else - (pi / 2)))"

text \<open>The library function \<open>math.degrees\<close>: multiplication by \<open>180 / \<pi>\<close>, which keeps the sign of a zero.\<close>

fun degrees :: "pyfloat \<Rightarrow> pyfloat" where
  "degrees NegZero = NegZero"
| "degrees (Fl r) = Fl (r * 180 / pi)"

text \<open>
  The operator \<open>%\<close> in exact arithmetic, for a positive divisor: the result has the sign
  of the divisor, so it is \<open>a - b * floor (a / b)\<close>. Every call site below has the literal
  divisor 360, so Python's \<open>ZeroDivisionError\<close> for \<open>b = 0\<close> cannot arise from it.
\<close>

definition py_mod :: "real \<Rightarrow> real \<Rightarrow> real" where
  "py_mod a b = a - b * of_int \<lfloor>a / b\<rfloor>"

text \<open>Exceptions of the embedded code, as values.\<close>

datatype py_error = ZeroDivisionError | IndexError

text \<open>True division \<open>a / b\<close>: raises on a zero divisor.\<close>

definition py_truediv :: "real \<Rightarrow> real \<Rightarrow> py_error + real" where
  "py_truediv a b = (if b = 0 then Inl ZeroDivisionError else Inr (a / b))"

text \<open>Indexing \<open>xs[i]\<close> with a non-negative index: raises out of range.\<close>

definition py_getitem :: "'a list \<Rightarrow> nat \<Rightarrow> py_error + 'a" where
  "py_getitem xs i = (if i < length xs then Inr (xs ! i) else Inl IndexError)"

text \<open>Sequencing: an exception raised by the first computation ends the whole one.\<close>

definition py_bind :: "py_error + 'a \<Rightarrow> ('a \<Rightarrow> py_error + 'b) \<Rightarrow> py_error + 'b" where
  "py_bind m f = (case m of Inl e \<Rightarrow> Inl e | Inr x \<Rightarrow> f x)"

text \<open>
  The builtin \<open>round(x, n)\<close>: the nearest multiple of \<open>10\<^sup>-\<^sup>n\<close>, a tie going to the even
  neighbour.
\<close>

definition round_half_even :: "real \<Rightarrow> int" where
  "round_half_even x =
     (let f = \<lfloor>x\<rfloor>; d = x - of_int f
      in if d < 1 / 2 then f
         else if 1 / 2 < d then f + 1
         else if even f then f else f + 1)"

definition py_round :: "real \<Rightarrow> nat \<Rightarrow> real" where
  "py_round x n = of_int (round_half_even (x * 10 ^ n)) / 10 ^ n"

subsection \<open>Binary64 rounding\<close>

text \<open>
  A Python float is an IEEE 754 binary64 number, and each of \<open>+\<close>, \<open>-\<close>, \<open>*\<close>, \<open>/\<close>
  returns the exact result rounded to the nearest binary64 number, a tie going to the
  neighbour with the even significand. \<open>fp_round\<close> is this rounding for results below
  the overflow threshold: \<open>fp_exp x\<close> is the binary exponent of \<open>x\<close>, never below
  \<open>-1022\<close> (the numbers below \<open>2\<^sup>-\<^sup>1\<^sup>0\<^sup>2\<^sup>2\<close> are subnormal and keep the spacing
  \<open>2\<^sup>-\<^sup>1\<^sup>0\<^sup>7\<^sup>4\<close>), \<open>fp_ulp x\<close> is the spacing of the binary64 numbers around \<open>x\<close>, and
  \<open>x\<close> is rounded to a multiple of it. Overflow to infinity is not modelled.
\<close>

definition fp_exp :: "real \<Rightarrow> int" where
  "fp_exp x = (if \<bar>x\<bar> < 2 powi (- 1022) then - 1022 else \<lfloor>log 2 \<bar>x\<bar>\<rfloor>)"

definition fp_ulp :: "real \<Rightarrow> real" where
  "fp_ulp x = 2 powi (fp_exp x - 52)"

definition fp_round :: "real \<Rightarrow> real" where
  "fp_round x = fp_ulp x * of_int (round_half_even (x / fp_ulp x))"

text \<open>
  \<open>is_float x\<close>: \<open>x\<close> is a binary64 number. \<open>in_range x\<close>: moreover its magnitude is
  at most \<open>2\<^sup>1\<^sup>0\<^sup>2\<^sup>2\<close>, so that the sum or difference of two such numbers, and the sum
  of one of them and such a difference, do not overflow.
\<close>

definition is_float :: "real \<Rightarrow> bool" where
  "is_float x \<longleftrightarrow> fp_round x = x"

definition in_range :: "real \<Rightarrow> bool" where
  "in_range x \<longleftrightarrow> is_float x \<and> \<bar>x\<bar> \<le> 2 ^ 1022"

text \<open>
  The C library function \<open>fmod(a, b)\<close>, which CPython calls for \<open>%\<close>: the value
  \<open>a - b * trunc (a / b)\<close>, computed exactly; it has the sign of \<open>a\<close>.
\<close>

definition c_fmod :: "real \<Rightarrow> real \<Rightarrow> real" where
  "c_fmod a b = a - b * of_int (if 0 \<le> a / b then \<lfloor>a / b\<rfloor> else - \<lfloor>- (a / b)\<rfloor>)"

text \<open>
  The operator \<open>%\<close> on floats as CPython computes it: \<open>fmod\<close>, and when the remainder
  is not zero and its sign differs from the sign of the divisor, the divisor is added to
  it, which is a rounded addition. A zero remainder is returned as zero. Every call site
  has the literal divisor 360, so the \<open>ZeroDivisionError\<close> for \<open>b = 0\<close> cannot arise.
\<close>

definition py_mod_fp :: "real \<Rightarrow> real \<Rightarrow> real" where
  "py_mod_fp a b =
     (let m = c_fmod a b
      in if m \<noteq> 0 then (if (b < 0) \<noteq> (m < 0) then fp_round (m + b) else m) else 0)"

text \<open>True division of floats: the rounded quotient; raises on a zero divisor.\<close>

definition py_truediv_fp :: "real \<Rightarrow> real \<Rightarrow> py_error + real" where
  "py_truediv_fp a b = (if b = 0 then Inl ZeroDivisionError else Inr (fp_round (a / b)))"

subsection \<open>Data\<close>

text \<open>
  The calibration attributes that \<open>GaugeReader.__init__\<close> reads from \<open>gauge_config\<close>.
\<close>

record calibration =
  min_value :: real
  max_value :: real
  min_angle :: real
  max_angle :: real
  unit :: string

text \<open>A keypoint is the tuple \<open>(x, y, conf)\<close> that \<open>detect_gauge\<close> builds.\<close>

record keypoint =
  kp_x :: pyfloat
  kp_y :: pyfloat
  kp_conf :: real

text \<open>A detection is the dict with keys \<open>bbox\<close>, \<open>keypoints\<close>, \<open>det_conf\<close>.\<close>

record detection =
  bbox :: "real list"
  keypoints :: "keypoint list"
  det_conf :: "real"

text \<open>A reading is the dict that \<open>read_gauge\<close> appends; its keys carry the prefix \<open>r_\<close>.\<close>

record reading =
  r_value :: real
  r_angle :: real
  r_unit :: string
  r_bbox :: "real list"
  r_center :: "pyfloat \<times> pyfloat"
  r_needle_tip :: "pyfloat \<times> pyfloat"
  r_confidence :: real
  r_kp_center_conf :: real
  r_kp_needle_conf :: real

subsection \<open>\<open>GaugeReader.compute_angle\<close>\<close>

definition compute_angle :: "pyfloat \<times> pyfloat \<Rightarrow> pyfloat \<times> pyfloat \<Rightarrow> pyfloat" where
  "compute_angle center needle_tip =
     (let dx = fsub (fst needle_tip) (fst center);
          dy = fneg (fsub (snd needle_tip) (snd center));
          angle = degrees (atan2 dy dx)
      in angle)"

subsection \<open>\<open>GaugeReader.angle_to_value\<close> in exact arithmetic\<close>

definition normalize_deg :: "real \<Rightarrow> real" where
  "normalize_deg a = py_mod a 360"

text \<open>The local \<open>cw_sweep\<close>: the clockwise distance from the min position to the max position.\<close>

definition cw_sweep :: "calibration \<Rightarrow> real" where
  "cw_sweep cal = py_mod (normalize_deg (min_angle cal) - normalize_deg (max_angle cal)) 360"

definition angle_to_value :: "calibration \<Rightarrow> real \<Rightarrow> py_error + real" where
  "angle_to_value cal angle =
     (let min_a = normalize_deg (min_angle cal);
          needle_a = normalize_deg angle;
          cw_needle = py_mod (min_a - needle_a) 360
      in if cw_sweep cal < 0.001 then Inr (min_value cal)
         else py_bind (py_truediv cw_needle (cw_sweep cal)) (\<lambda>fraction.
           let fraction = max 0 (min 1 fraction);
               value = min_value cal + fraction * (max_value cal - min_value cal)
           in Inr value))"

subsection \<open>\<open>GaugeReader.angle_to_value\<close> in binary64 arithmetic\<close>

text \<open>
  \<open>angle_to_value\<close> above is the function in exact arithmetic. \<open>angle_to_value_fp\<close> is
  the same code with every arithmetic operation as the interpreter performs it on floats:
  \<open>%\<close> is \<open>py_mod_fp\<close>, and each subtraction, division, multiplication and addition
  is rounded by \<open>fp_round\<close>. The literal \<open>0.001\<close> is the binary64 number nearest to
  \<open>1/1000\<close>. The statements below that depend on rounding are about this function.
\<close>

definition normalize_fp :: "real \<Rightarrow> real" where
  "normalize_fp a = py_mod_fp a 360"

definition cw_sweep_fp :: "calibration \<Rightarrow> real" where
  "cw_sweep_fp cal =
     py_mod_fp (fp_round (normalize_fp (min_angle cal) - normalize_fp (max_angle cal))) 360"

definition angle_to_value_fp :: "calibration \<Rightarrow> real \<Rightarrow> py_error + real" where
  "angle_to_value_fp cal angle =
     (let min_a = normalize_fp (min_angle cal);
          needle_a = normalize_fp angle;
          cw_needle = py_mod_fp (fp_round (min_a - needle_a)) 360
      in if cw_sweep_fp cal < fp_round 0.001 then Inr (min_value cal)
         else py_bind (py_truediv_fp cw_needle (cw_sweep_fp cal)) (\<lambda>fraction.
           let fraction = max 0 (min 1 fraction);
               value = fp_round (min_value cal +
                         fp_round (fraction * fp_round (max_value cal - min_value cal)))
           in Inr value))"

subsection \<open>\<open>GaugeReader.read_gauge\<close>\<close>

text \<open>
  The loop over the detections, with the list \<open>readings\<close> built so far as accumulator;
  \<open>continue\<close> is the recursive call with the accumulator unchanged. The sign of a zero
  angle is not passed on to \<open>angle_to_value\<close>, whose first step \<open>angle % 360\<close> erases it.
\<close>

fun read_gauge_loop :: "calibration \<Rightarrow> detection list \<Rightarrow> reading list \<Rightarrow> py_error + reading list" where
  "read_gauge_loop cal [] readings = Inr readings"
| "read_gauge_loop cal (det # dets) readings =
     (let kps = keypoints det
      in if length kps < 2 then read_gauge_loop cal dets readings
         else
           py_bind (py_getitem kps 0) (\<lambda>k0.
           py_bind (py_getitem kps 1) (\<lambda>k1.
             let center = (kp_x k0, kp_y k0);
                 needle_tip = (kp_x k1, kp_y k1);
                 kp_center_conf = kp_conf k0;
                 kp_needle_conf = kp_conf k1
             in if kp_center_conf < 0.3 \<or> kp_needle_conf < 0.3
                then read_gauge_loop cal dets readings
                else
                  let angle = compute_angle center needle_tip
                  in py_bind (angle_to_value cal (fval angle)) (\<lambda>value.
                       read_gauge_loop cal dets
                         (readings @
                          [\<lparr>r_value = py_round value 3,
                            r_angle = py_round (fval angle) 2,
                            r_unit = unit cal,
                            r_bbox = bbox det,
                            r_center = center,
                            r_needle_tip = needle_tip,
                            r_confidence = det_conf det,
                            r_kp_center_conf = kp_center_conf,
                            r_kp_needle_conf = kp_needle_conf\<rparr>])))))"

text \<open>\<open>read_gauge\<close> on the detections that \<open>self.detect_gauge(frame)\<close> returned.\<close>

definition read_gauge :: "calibration \<Rightarrow> detection list \<Rightarrow> py_error + reading list" where
  "read_gauge cal detections = read_gauge_loop cal detections []"

subsection \<open>The specification's contract for \<open>read_gauge\<close>\<close>

text \<open>
  The three definitions of this subsection follow the words of the specification
  (sections 4.2 and 4.3), not the code; \<open>read_gauge\<close> is compared with them below.
  \<open>spec_passes_filters\<close>: the detection has at least 2 keypoints and both keypoint
  confidences are at least 0.3.
\<close>

definition spec_passes_filters :: "detection \<Rightarrow> bool" where
  "spec_passes_filters det =
     (2 \<le> length (keypoints det) \<and>
      0.3 \<le> kp_conf (keypoints det ! 0) \<and> 0.3 \<le> kp_conf (keypoints det ! 1))"

text \<open>\<open>spec_value\<close>: steps 1 to 6 of the sweep-fraction mapping.\<close>

definition spec_value :: "calibration \<Rightarrow> real \<Rightarrow> real" where
  "spec_value cal angle =
     (let min_a = py_mod (min_angle cal) 360;
          max_a = py_mod (max_angle cal) 360;
          needle_a = py_mod angle 360;
          sweep = py_mod (min_a - max_a) 360;
          cw_needle = py_mod (min_a - needle_a) 360
      in if sweep < 0.001 then min_value cal
         else min_value cal + max 0 (min 1 (cw_needle / sweep)) * (max_value cal - min_value cal))"

text \<open>
  \<open>spec_reading\<close>: the Reading assembled for one detection, with the value rounded to 3
  and the angle to 2 decimal places.
\<close>

definition spec_reading :: "calibration \<Rightarrow> detection \<Rightarrow> reading" where
  "spec_reading cal det =
     (let center = (kp_x (keypoints det ! 0), kp_y (keypoints det ! 0));
          tip = (kp_x (keypoints det ! 1), kp_y (keypoints det ! 1));
          angle = fval (compute_angle center tip)
      in \<lparr>r_value = py_round (spec_value cal angle) 3,
          r_angle = py_round angle 2,
          r_unit = unit cal,
          r_bbox = bbox det,
          r_center = center,
          r_needle_tip = tip,
          r_confidence = det_conf det,
          r_kp_center_conf = kp_conf (keypoints det ! 0),
          r_kp_needle_conf = kp_conf (keypoints det ! 1)\<rparr>)"

section \<open>Modular arithmetic on angles\<close>

lemma py_mod_add_int: "b \<noteq> 0 \<Longrightarrow> py_mod (a + b * of_int k) b = py_mod a b"
  unfolding py_mod_def
  by (simp add: add_divide_distrib algebra_simps)

lemma normalize_deg_shift: "normalize_deg (a + 360 * of_int k) = normalize_deg a"
  unfolding normalize_deg_def by (rule py_mod_add_int) simp

lemma cw_sweep_shift:
  "cw_sweep (cal\<lparr>min_angle := min_angle cal + 360 * of_int j,
                  max_angle := max_angle cal + 360 * of_int k\<rparr>) = cw_sweep cal"
  by (simp add: cw_sweep_def normalize_deg_shift)

section \<open>The mapping from angle to value\<close>

text \<open>
  The division is never reached with a zero divisor, so \<open>angle_to_value\<close> has a closed
  form without the exception.
\<close>

lemma angle_to_value_Inr:
  "angle_to_value cal angle =
     Inr (if cw_sweep cal < 0.001 then min_value cal
          else min_value cal +
               max 0 (min 1 (py_mod (normalize_deg (min_angle cal) - normalize_deg angle) 360
                             / cw_sweep cal)) *
               (max_value cal - min_value cal))"
  by (simp add: angle_to_value_def py_truediv_def py_bind_def Let_def)

text \<open>
  Claim C3. With \<open>min_angle = 225\<close>, \<open>max_angle = -45\<close>, \<open>min_value = 0\<close> and
  \<open>max_value = 10\<close> the sweep crosses the 0 degree boundary, and the angle 90 is mapped to
  the value 5: there is no wrap-around error.
\<close>

theorem angle_to_value_crossing_zero:
  "angle_to_value \<lparr>min_value = 0, max_value = 10, min_angle = 225, max_angle = - 45, unit = u\<rparr> 90
     = Inr 5"
  by (simp add: angle_to_value_def cw_sweep_def normalize_deg_def py_mod_def py_truediv_def
      py_bind_def)



text \<open>
  Claim C10. Adding whole turns to the calibration angles (\<open>360 * j\<close> to \<open>min_angle\<close>,
  \<open>360 * k\<close> to \<open>max_angle\<close>, for integers \<open>j\<close> and \<open>k\<close>) leaves
  \<open>angle_to_value\<close> unchanged at every angle.
\<close>

theorem angle_to_value_calibration_periodic:
  "angle_to_value
     (cal\<lparr>min_angle := min_angle cal + 360 * of_int j,
          max_angle := max_angle cal + 360 * of_int k\<rparr>) \<theta>
   = angle_to_value cal \<theta>"
  by (simp add: angle_to_value_def cw_sweep_shift normalize_deg_shift del: update_convs)

text \<open>
  Claim C2 as the specification states it, for every calibration, fails where
  \<open>min_angle\<close> and \<open>max_angle\<close> coincide: \<open>max_angle = 100\<close> is mapped to
  \<open>min_value = 0\<close>, not to \<open>max_value = 10\<close> (the arithmetic is exact at this input).
  The claim as the code has it is stated below, in binary64 arithmetic.
\<close>

theorem angle_to_value_endpoints_counterexample:
  "angle_to_value \<lparr>min_value = 0, max_value = 10, min_angle = 100, max_angle = 100, unit = ''kg/cm2''\<rparr>
     (max_angle \<lparr>min_value = 0, max_value = 10, min_angle = 100, max_angle = 100, unit = ''kg/cm2''\<rparr>)
   \<noteq> Inr (max_value \<lparr>min_value = 0, max_value = 10, min_angle = 100, max_angle = 100, unit = ''kg/cm2''\<rparr>)"
  by (simp add: angle_to_value_def cw_sweep_def py_mod_def)

section \<open>Rounding to binary64\<close>

subsection \<open>Rounding to the nearest integer, ties to even\<close>

lemma round_half_even_of_int: "round_half_even (of_int n) = n"
  by (simp add: round_half_even_def)

lemma round_half_even_bounds: "\<lfloor>a\<rfloor> \<le> round_half_even a \<and> round_half_even a \<le> \<lfloor>a\<rfloor> + 1"
  by (simp add: round_half_even_def Let_def)

lemma round_half_even_mono: "a \<le> b \<Longrightarrow> round_half_even a \<le> round_half_even b"
proof -
  assume ab: "a \<le> b"
  then have fl: "\<lfloor>a\<rfloor> \<le> \<lfloor>b\<rfloor>" by (rule floor_mono)
  show ?thesis
  proof (cases "\<lfloor>a\<rfloor> = \<lfloor>b\<rfloor>")
    case True
    then show ?thesis using ab by (auto simp add: round_half_even_def Let_def)
  next
    case False
    then have "\<lfloor>a\<rfloor> + 1 \<le> \<lfloor>b\<rfloor>" using fl by simp
    then show ?thesis using round_half_even_bounds [of a] round_half_even_bounds [of b] by linarith
  qed
qed

lemma round_half_even_err: "\<bar>of_int (round_half_even a) - a\<bar> \<le> 1 / 2"
  unfolding round_half_even_def Let_def
  by (auto simp add: abs_le_iff)

lemma round_half_even_neg: "round_half_even (- a) = - round_half_even a"
proof (cases "a = of_int \<lfloor>a\<rfloor>")
  case True
  then obtain n where "a = of_int n" ..
  then have "- a = of_int (- n)" by simp
  then show ?thesis using \<open>a = of_int n\<close> round_half_even_of_int by metis
next
  case False
  then have lt: "of_int \<lfloor>a\<rfloor> < a" using of_int_floor_le [of a] by linarith
  have up: "a < of_int \<lfloor>a\<rfloor> + 1" by linarith
  have "\<lfloor>- a\<rfloor> = - \<lfloor>a\<rfloor> - 1"
  proof (rule floor_unique)
    show "of_int (- \<lfloor>a\<rfloor> - 1) \<le> - a"
      unfolding of_int_diff of_int_minus of_int_1 using up by linarith
    show "- a < of_int (- \<lfloor>a\<rfloor> - 1) + 1"
      unfolding of_int_diff of_int_minus of_int_1 using lt by linarith
  qed
  then show ?thesis
    by (auto simp add: round_half_even_def Let_def)
qed

subsection \<open>The exponent of a number\<close>

lemma fp_exp_uminus: "fp_exp (- x) = fp_exp x"
  by (simp add: fp_exp_def)

lemma fp_ulp_uminus: "fp_ulp (- x) = fp_ulp x"
  by (simp add: fp_ulp_def fp_exp_uminus)

lemma fp_ulp_pos: "0 < fp_ulp x"
  by (simp add: fp_ulp_def)

lemma fp_round_uminus: "fp_round (- x) = - fp_round x"
  by (simp add: fp_round_def fp_ulp_uminus round_half_even_neg)

lemma fp_round_zero: "fp_round 0 = 0"
  by (simp add: fp_round_def round_half_even_of_int [of 0, simplified])

lemma powr_powi: "(2::real) powr of_int k = 2 powi k"
  by (rule powr_real_of_int') simp_all

lemma floor_log2_eq: "0 < x \<Longrightarrow> \<lfloor>log 2 x\<rfloor> = k \<longleftrightarrow> 2 powi k \<le> x \<and> x < 2 powi (k + 1)"
  using floor_log_eq_powr_iff [of x 2 k] powr_powi [of k] powr_powi [of "k + 1"]
  by simp

lemma fp_exp_eqI:
  assumes "2 powi e \<le> \<bar>x\<bar>" "\<bar>x\<bar> < 2 powi (e + 1)" "- 1022 \<le> e"
  shows "fp_exp x = e"
proof -
  have "(2::real) powi (- 1022) \<le> 2 powi e"
    using assms(3) by (intro power_int_increasing) simp_all
  then have n: "\<not> \<bar>x\<bar> < 2 powi (- 1022)" using assms(1) by linarith
  have pos: "0 < \<bar>x\<bar>" using assms(1) zero_less_power_int [of "2::real" e] by linarith
  show ?thesis using n floor_log2_eq [OF pos, of e] assms by (simp add: fp_exp_def)
qed

lemma fp_exp_normal:
  assumes "\<not> \<bar>x\<bar> < 2 powi (- 1022)"
  shows "2 powi (fp_exp x) \<le> \<bar>x\<bar> \<and> \<bar>x\<bar> < 2 powi (fp_exp x + 1) \<and> - 1022 \<le> fp_exp x"
proof -
  have pos: "0 < \<bar>x\<bar>" using assms zero_less_power_int [of "2::real" "- 1022"] by linarith
  have e: "fp_exp x = \<lfloor>log 2 \<bar>x\<bar>\<rfloor>" using assms by (simp add: fp_exp_def)
  have b: "2 powi (fp_exp x) \<le> \<bar>x\<bar> \<and> \<bar>x\<bar> < 2 powi (fp_exp x + 1)"
    using floor_log2_eq [OF pos, of "fp_exp x"] e by simp
  have "\<not> fp_exp x + 1 \<le> - 1022"
  proof
    assume "fp_exp x + 1 \<le> - 1022"
    then have "(2::real) powi (fp_exp x + 1) \<le> 2 powi (- 1022)"
      by (intro power_int_increasing) simp_all
    then show False using b assms by linarith
  qed
  then show ?thesis using b by simp
qed

lemma fp_exp_ge: "- 1022 \<le> fp_exp x"
  using fp_exp_normal [of x] by (cases "\<bar>x\<bar> < 2 powi (- 1022)") (simp_all add: fp_exp_def)

lemma fp_exp_upper: "\<bar>x\<bar> < 2 powi (fp_exp x + 1)"
proof (cases "\<bar>x\<bar> < 2 powi (- 1022)")
  case True
  moreover have "(2::real) powi (- 1022) \<le> 2 powi (fp_exp x + 1)"
    using fp_exp_ge [of x] by (intro power_int_increasing) simp_all
  ultimately show ?thesis by linarith
next
  case False
  then show ?thesis using fp_exp_normal by blast
qed

lemma fp_exp_mono: "\<bar>x\<bar> \<le> \<bar>y\<bar> \<Longrightarrow> fp_exp x \<le> fp_exp y"
proof (cases "\<bar>x\<bar> < 2 powi (- 1022)")
  case True
  then show ?thesis using fp_exp_ge [of y] by (simp add: fp_exp_def)
next
  case False
  assume xy: "\<bar>x\<bar> \<le> \<bar>y\<bar>"
  have "2 powi (fp_exp x) \<le> \<bar>x\<bar>" using fp_exp_normal [OF False] by simp
  also have "\<dots> \<le> \<bar>y\<bar>" by (rule xy)
  also have "\<dots> < 2 powi (fp_exp y + 1)" by (rule fp_exp_upper)
  finally have lt: "(2::real) powi (fp_exp x) < 2 powi (fp_exp y + 1)" .
  have "fp_exp x < fp_exp y + 1"
  proof (rule ccontr)
    assume "\<not> fp_exp x < fp_exp y + 1"
    then have "fp_exp y + 1 \<le> fp_exp x" by simp
    then have "(2::real) powi (fp_exp y + 1) \<le> 2 powi (fp_exp x)"
      by (intro power_int_increasing) simp_all
    then show False using lt by linarith
  qed
  then show ?thesis by simp
qed

subsection \<open>Monotonicity, fixed points and error of the rounding\<close>

lemma fp_ulp_53: "fp_ulp x * of_int (2 ^ 53) = 2 powi (fp_exp x + 1)"
proof -
  have e: "fp_exp x + 1 = (fp_exp x - 52) + 53" by linarith
  have "(2::real) powi ((fp_exp x - 52) + 53) = 2 powi (fp_exp x - 52) * 2 powi 53"
    by (rule power_int_add) simp
  moreover have "(2::real) powi 53 = of_int (2 ^ 53)" by simp
  ultimately show ?thesis unfolding fp_ulp_def e by (simp only:)
qed

lemma fp_ulp_52: "fp_ulp x * of_int (2 ^ 52) = 2 powi (fp_exp x)"
proof -
  have e: "fp_exp x = (fp_exp x - 52) + 52" by linarith
  have "(2::real) powi ((fp_exp x - 52) + 52) = 2 powi (fp_exp x - 52) * 2 powi 52"
    by (rule power_int_add) simp
  moreover have "(2::real) powi 52 = of_int (2 ^ 52)" by simp
  ultimately show ?thesis unfolding fp_ulp_def using e by (simp only:)
qed

lemma fp_round_nonneg: "0 \<le> x \<Longrightarrow> 0 \<le> fp_round x"
proof -
  assume "0 \<le> x"
  then have "0 \<le> x / fp_ulp x" using fp_ulp_pos [of x] by simp
  then have "round_half_even 0 \<le> round_half_even (x / fp_ulp x)" by (rule round_half_even_mono)
  then have "0 \<le> round_half_even (x / fp_ulp x)" using round_half_even_of_int [of 0] by simp
  then show ?thesis using fp_ulp_pos [of x] by (simp add: fp_round_def)
qed

lemma fp_round_upper: "0 \<le> x \<Longrightarrow> fp_round x \<le> 2 powi (fp_exp x + 1)"
proof -
  assume x: "0 \<le> x"
  have u: "0 < fp_ulp x" by (rule fp_ulp_pos)
  have "\<bar>x\<bar> < 2 powi (fp_exp x + 1)" by (rule fp_exp_upper)
  then have "x < fp_ulp x * of_int (2 ^ 53)" unfolding fp_ulp_53 using x by linarith
  then have "x / fp_ulp x < of_int (2 ^ 53)"
    using u by (simp only: pos_divide_less_eq mult.commute)
  then have "x / fp_ulp x \<le> of_int (2 ^ 53)" by linarith
  then have "round_half_even (x / fp_ulp x) \<le> round_half_even (of_int (2 ^ 53))"
    by (rule round_half_even_mono)
  then have "round_half_even (x / fp_ulp x) \<le> 2 ^ 53" by (simp only: round_half_even_of_int)
  then have "(of_int (round_half_even (x / fp_ulp x)) :: real) \<le> of_int (2 ^ 53)"
    by (simp only: of_int_le_iff)
  then have "fp_ulp x * of_int (round_half_even (x / fp_ulp x)) \<le> fp_ulp x * of_int (2 ^ 53)"
    using u by (rule mult_left_mono [OF _ less_imp_le])
  then show ?thesis by (simp only: fp_round_def fp_ulp_53)
qed

lemma fp_round_lower:
  assumes "0 \<le> x" "\<not> x < 2 powi (- 1022)"
  shows "2 powi (fp_exp x) \<le> fp_round x"
proof -
  have u: "0 < fp_ulp x" by (rule fp_ulp_pos)
  have ax: "\<bar>x\<bar> = x" using assms(1) by simp
  have "\<not> \<bar>x\<bar> < 2 powi (- 1022)" unfolding ax by (rule assms(2))
  then have "2 powi (fp_exp x) \<le> \<bar>x\<bar>" using fp_exp_normal by blast
  then have "fp_ulp x * of_int (2 ^ 52) \<le> x" unfolding fp_ulp_52 ax .
  then have "of_int (2 ^ 52) \<le> x / fp_ulp x"
    using u by (simp only: pos_le_divide_eq mult.commute)
  then have "round_half_even (of_int (2 ^ 52)) \<le> round_half_even (x / fp_ulp x)"
    by (rule round_half_even_mono)
  then have "2 ^ 52 \<le> round_half_even (x / fp_ulp x)" by (simp only: round_half_even_of_int)
  then have "(of_int (2 ^ 52) :: real) \<le> of_int (round_half_even (x / fp_ulp x))"
    by (simp only: of_int_le_iff)
  then have "fp_ulp x * of_int (2 ^ 52) \<le> fp_ulp x * of_int (round_half_even (x / fp_ulp x))"
    using u by (rule mult_left_mono [OF _ less_imp_le])
  then show ?thesis by (simp only: fp_round_def fp_ulp_52)
qed

lemma fp_round_mono_nonneg:
  assumes "0 \<le> x" "x \<le> y"
  shows "fp_round x \<le> fp_round y"
proof (cases "fp_exp x = fp_exp y")
  case True
  then have u: "fp_ulp x = fp_ulp y" by (simp add: fp_ulp_def)
  have "x / fp_ulp y \<le> y / fp_ulp y"
    using assms(2) fp_ulp_pos [of y] by (simp add: divide_right_mono)
  then have "round_half_even (x / fp_ulp y) \<le> round_half_even (y / fp_ulp y)" by (rule round_half_even_mono)
  then show ?thesis using fp_ulp_pos [of y] by (simp add: fp_round_def u)
next
  case False
  have y: "0 \<le> y" using assms by simp
  have "fp_exp x \<le> fp_exp y" using assms by (intro fp_exp_mono) simp
  then have lt: "fp_exp x + 1 \<le> fp_exp y" using False by simp
  have ny: "\<not> y < 2 powi (- 1022)"
  proof
    assume "y < 2 powi (- 1022)"
    then have "\<bar>y\<bar> < 2 powi (- 1022)" using y by linarith
    then have "fp_exp y = - 1022" unfolding fp_exp_def by (simp only: if_True)
    then show False using lt fp_exp_ge [of x] by simp
  qed
  have "fp_round x \<le> 2 powi (fp_exp x + 1)" using assms(1) by (rule fp_round_upper)
  also have "\<dots> \<le> 2 powi (fp_exp y)" using lt by (intro power_int_increasing) simp_all
  also have "\<dots> \<le> fp_round y" using y ny by (rule fp_round_lower)
  finally show ?thesis .
qed

lemma fp_round_mono: "x \<le> y \<Longrightarrow> fp_round x \<le> fp_round y"
proof -
  assume xy: "x \<le> y"
  consider (a) "0 \<le> x" | (b) "y \<le> 0" | (c) "x < 0" "0 < y" by linarith
  then show ?thesis
  proof cases
    case a
    then show ?thesis using xy by (rule fp_round_mono_nonneg)
  next
    case b
    then have "fp_round (- y) \<le> fp_round (- x)" using xy by (intro fp_round_mono_nonneg) simp_all
    then show ?thesis by (simp add: fp_round_uminus)
  next
    case c
    have "0 \<le> fp_round (- x)" using c by (intro fp_round_nonneg) simp
    moreover have "0 \<le> fp_round y" using c by (intro fp_round_nonneg) simp
    ultimately show ?thesis by (simp add: fp_round_uminus)
  qed
qed

lemma fp_round_err: "\<bar>fp_round x - x\<bar> \<le> fp_ulp x / 2"
proof -
  let ?u = "fp_ulp x"
  have u: "0 < ?u" by (rule fp_ulp_pos)
  have "fp_round x - x = ?u * (of_int (round_half_even (x / ?u)) - x / ?u)"
    using u by (simp add: fp_round_def algebra_simps)
  then have "\<bar>fp_round x - x\<bar> = ?u * \<bar>of_int (round_half_even (x / ?u)) - x / ?u\<bar>"
    using u by (simp add: abs_mult)
  also have "\<dots> \<le> ?u * (1 / 2)"
    using u round_half_even_err [of "x / ?u"] by (intro mult_left_mono) simp_all
  finally show ?thesis by simp
qed

lemma fp_exp_repr:
  assumes "\<bar>m\<bar> < 2 ^ 53" "- 1074 \<le> k"
  shows "fp_exp (of_int m * 2 powi k) - 52 \<le> k"
proof (cases "\<bar>of_int m * 2 powi k :: real\<bar> < 2 powi (- 1022)")
  case True
  then have "fp_exp (of_int m * 2 powi k) = - 1022" unfolding fp_exp_def by (simp only: if_True)
  then show ?thesis using assms(2) by linarith
next
  case False
  let ?x = "of_int m * 2 powi k :: real"
  have "(of_int \<bar>m\<bar> :: real) < of_int (2 ^ 53)" using assms(1) by (simp only: of_int_less_iff)
  then have m: "\<bar>real_of_int m\<bar> < 2 powi 53" by simp
  have "2 powi (fp_exp ?x) \<le> \<bar>?x\<bar>" using fp_exp_normal [OF False] by simp
  also have "\<bar>?x\<bar> = \<bar>of_int m\<bar> * 2 powi k" by (simp add: abs_mult)
  also have "\<dots> < 2 powi 53 * 2 powi k"
    using m by (intro mult_strict_right_mono) simp_all
  also have "\<dots> = 2 powi (53 + k)"
    by (rule power_int_add [symmetric]) simp
  finally have lt: "(2::real) powi (fp_exp ?x) < 2 powi (53 + k)" .
  have "fp_exp ?x < 53 + k"
  proof (rule ccontr)
    assume "\<not> fp_exp ?x < 53 + k"
    then have "53 + k \<le> fp_exp ?x" by simp
    then have "(2::real) powi (53 + k) \<le> 2 powi (fp_exp ?x)"
      by (intro power_int_increasing) simp_all
    then show False using lt by linarith
  qed
  then show ?thesis by linarith
qed

lemma fp_round_repr:
  assumes "\<bar>m\<bar> < 2 ^ 53" "- 1074 \<le> k"
  shows "fp_round (of_int m * 2 powi k) = of_int m * 2 powi k"
proof -
  define x :: real where "x = of_int m * 2 powi k"
  define u where "u = fp_ulp x"
  define n where "n = nat (k - (fp_exp x - 52))"
  have u: "0 < u" unfolding u_def by (rule fp_ulp_pos)
  have ek: "fp_exp x - 52 \<le> k" unfolding x_def using assms by (rule fp_exp_repr)
  then have kn: "k = (fp_exp x - 52) + int n" by (simp add: n_def)
  have "(2::real) powi ((fp_exp x - 52) + int n) = 2 powi (fp_exp x - 52) * 2 powi (int n)"
    by (rule power_int_add) simp
  then have p: "(2::real) powi k = u * 2 ^ n" unfolding u_def fp_ulp_def using kn by simp
  have xu: "x = u * of_int (m * 2 ^ n)" unfolding x_def p by simp
  then have "x / u = of_int (m * 2 ^ n)" using u by simp
  then have "round_half_even (x / u) = m * 2 ^ n" by (simp only: round_half_even_of_int)
  then have "fp_round x = u * of_int (m * 2 ^ n)" by (simp only: fp_round_def u_def)
  then have "fp_round x = x" using xu by simp
  then show ?thesis unfolding x_def .
qed

lemma fp_round_pow2: "- 1074 \<le> k \<Longrightarrow> fp_round (2 powi k) = 2 powi k"
  using fp_round_repr [of 1 k] by simp

lemma fp_round_idem: "fp_round (fp_round x) = fp_round x"
proof -
  have nonneg: "fp_round (fp_round y) = fp_round y" if y: "0 \<le> y" for y
  proof -
    let ?n = "round_half_even (y / fp_ulp y)"
    have u: "0 < fp_ulp y" by (rule fp_ulp_pos)
    have k: "- 1074 \<le> fp_exp y - 52" using fp_exp_ge [of y] by linarith
    have r: "fp_round y = of_int ?n * 2 powi (fp_exp y - 52)"
      by (simp add: fp_round_def fp_ulp_def)
    have "0 \<le> y / fp_ulp y" using y u by simp
    then have "round_half_even 0 \<le> ?n" by (rule round_half_even_mono)
    then have n0: "0 \<le> ?n" using round_half_even_of_int [of 0] by simp
    have "fp_round y \<le> 2 powi (fp_exp y + 1)" using y by (rule fp_round_upper)
    then have "fp_ulp y * of_int ?n \<le> fp_ulp y * of_int (2 ^ 53)"
      by (simp only: fp_round_def fp_ulp_53)
    then have "(of_int ?n :: real) \<le> of_int (2 ^ 53)"
      using u by (simp only: mult_le_cancel_left_pos)
    then have n53: "?n \<le> 2 ^ 53" by (simp only: of_int_le_iff)
    show ?thesis
    proof (cases "?n = 2 ^ 53")
      case True
      then have "fp_round y = fp_ulp y * of_int (2 ^ 53)" by (simp only: fp_round_def)
      then have "fp_round y = 2 powi (fp_exp y + 1)" by (simp only: fp_ulp_53)
      moreover have "- 1074 \<le> fp_exp y + 1" using k by linarith
      ultimately show ?thesis using fp_round_pow2 by simp
    next
      case False
      then have "\<bar>?n\<bar> < 2 ^ 53" using n0 n53 by linarith
      then show ?thesis unfolding r using k by (rule fp_round_repr)
    qed
  qed
  show ?thesis
  proof (cases "0 \<le> x")
    case True
    then show ?thesis by (rule nonneg)
  next
    case False
    then have "fp_round (fp_round (- x)) = fp_round (- x)" by (intro nonneg) simp
    then show ?thesis by (simp add: fp_round_uminus)
  qed
qed

text \<open>The rounding of a number whose binade is known, for evaluation.\<close>

lemma fp_round_eval:
  assumes "2 powi e \<le> \<bar>x\<bar>" "\<bar>x\<bar> < 2 powi (e + 1)" "- 1022 \<le> e"
  shows "fp_round x = 2 powi (e - 52) * of_int (round_half_even (x / 2 powi (e - 52)))"
  using fp_exp_eqI [OF assms] by (simp add: fp_round_def fp_ulp_def)

lemma fp_round_numeral:
  "(numeral n :: int) < 2 ^ 53 \<Longrightarrow> fp_round (numeral n) = numeral n"
  using fp_round_repr [of "numeral n" 0] by simp

lemma fp_round_neg_numeral:
  "(numeral n :: int) < 2 ^ 53 \<Longrightarrow> fp_round (- numeral n) = - numeral n"
  using fp_round_numeral [of n] by (simp add: fp_round_uminus)

lemma fp_round_one: "fp_round 1 = 1"
  using fp_round_repr [of 1 0] by simp

lemma fp_round_milli: "fp_round (1 / 1000) = 1152921504606847 / 2 ^ 60"
  by (subst fp_round_eval [where e = "- 10"]) (simp_all add: round_half_even_def)

lemma fp_round_div_pow2:
  assumes "\<bar>m\<bar> < 2 ^ 53" "j \<le> 1074"
  shows "fp_round (of_int m / 2 ^ j) = of_int m / 2 ^ j"
proof -
  have "(2::real) powi (- int j) = 1 / 2 ^ j"
    by (simp add: power_int_minus divide_simps)
  then have "of_int m * (2::real) powi (- int j) = of_int m / 2 ^ j" by simp
  moreover have "fp_round (of_int m * 2 powi (- int j)) = of_int m * 2 powi (- int j)"
    using assms by (intro fp_round_repr) simp_all
  ultimately show ?thesis by (simp only:)
qed

lemma fp_round_rel_err: "\<bar>fp_round x - x\<bar> \<le> \<bar>x\<bar> / 2 ^ 53 + 1 / 2 ^ 1075"
proof (cases "\<bar>x\<bar> < 2 powi (- 1022)")
  case True
  then have "fp_exp x = - 1022" unfolding fp_exp_def by (simp only: if_True)
  then have "fp_ulp x = 2 powi (- 1074)" by (simp add: fp_ulp_def)
  then have "fp_ulp x / 2 = 1 / 2 ^ 1075" by (simp add: power_int_minus divide_simps)
  moreover have "0 \<le> \<bar>x\<bar> / 2 ^ 53" by simp
  ultimately show ?thesis using fp_round_err [of x] by linarith
next
  case False
  then have "2 powi (fp_exp x) \<le> \<bar>x\<bar>" using fp_exp_normal by blast
  then have "fp_ulp x * of_int (2 ^ 52) \<le> \<bar>x\<bar>" by (simp only: fp_ulp_52)
  then have "fp_ulp x * 2 ^ 52 \<le> \<bar>x\<bar>" by simp
  then have "fp_ulp x / 2 \<le> \<bar>x\<bar> / 2 ^ 53" by (simp add: field_simps)
  moreover have "(0::real) \<le> 1 / 2 ^ 1075" by simp
  ultimately show ?thesis using fp_round_err [of x] by linarith
qed

text \<open>
  The interpolation at the fraction 1, \<open>a + (b - a)\<close> with both operations rounded, returns
  \<open>b\<close> up to the two rounding errors.
\<close>

lemma span_roundtrip:
  "\<bar>fp_round (a + fp_round (b - a)) - b\<bar> \<le> (\<bar>b\<bar> + \<bar>b - a\<bar>) / 2 ^ 52 + 3 / 2 ^ 1075"
proof -
  define t :: real where "t = 1 / 2 ^ 1075"
  define h :: real where "h = 1 / 2 ^ 53"
  define d where "d = fp_round (b - a)"
  define s where "s = a + d"
  have t: "0 \<le> t" by (simp add: t_def)
  have h: "0 \<le> h" "h \<le> 1" by (simp_all add: h_def)
  have e1: "\<bar>d - (b - a)\<bar> \<le> \<bar>b - a\<bar> * h + t"
    using fp_round_rel_err [of "b - a"] by (simp add: d_def t_def h_def)
  have e2: "\<bar>fp_round s - s\<bar> \<le> \<bar>s\<bar> * h + t"
    using fp_round_rel_err [of s] by (simp add: t_def h_def)
  have sb: "\<bar>s - b\<bar> \<le> \<bar>b - a\<bar> * h + t" using e1 by (simp add: s_def algebra_simps)
  then have "\<bar>s\<bar> \<le> \<bar>b\<bar> + \<bar>b - a\<bar> * h + t" by linarith
  then have "\<bar>s\<bar> * h \<le> (\<bar>b\<bar> + \<bar>b - a\<bar> * h + t) * h" using h(1) by (rule mult_right_mono)
  also have "\<dots> = \<bar>b\<bar> * h + (\<bar>b - a\<bar> * h) * h + t * h" by (simp add: algebra_simps)
  also have "\<dots> \<le> \<bar>b\<bar> * h + (\<bar>b - a\<bar> * h) * 1 + t * 1"
    using h t by (intro add_mono mult_left_mono) simp_all
  finally have sh: "\<bar>s\<bar> * h \<le> \<bar>b\<bar> * h + \<bar>b - a\<bar> * h + t" by simp
  have "\<bar>fp_round s - b\<bar> \<le> \<bar>fp_round s - s\<bar> + \<bar>s - b\<bar>" by linarith
  also have "\<dots> \<le> (\<bar>b\<bar> * h + \<bar>b - a\<bar> * h + t + t) + (\<bar>b - a\<bar> * h + t)"
    using e2 sh sb by linarith
  also have "\<dots> = \<bar>b\<bar> * h + 2 * (\<bar>b - a\<bar> * h) + 3 * t" by simp
  also have "\<dots> \<le> 2 * (\<bar>b\<bar> * h) + 2 * (\<bar>b - a\<bar> * h) + 3 * t"
    using h(1) by (simp add: mult_nonneg_nonneg)
  also have "\<dots> = (\<bar>b\<bar> + \<bar>b - a\<bar>) / 2 ^ 52 + 3 / 2 ^ 1075"
    by (simp add: h_def t_def field_simps)
  finally show ?thesis by (simp add: s_def d_def)
qed

section \<open>The mapping from angle to value in binary64 arithmetic\<close>

lemma c_fmod_range: "0 < b \<Longrightarrow> - b < c_fmod a b \<and> c_fmod a b < b"
proof -
  assume b: "0 < b"
  define q where "q = a / b"
  have a: "a = b * q" using b by (simp add: q_def)
  have "- 1 < q - of_int (if 0 \<le> q then \<lfloor>q\<rfloor> else - \<lfloor>- q\<rfloor>) \<and>
        q - of_int (if 0 \<le> q then \<lfloor>q\<rfloor> else - \<lfloor>- q\<rfloor>) < 1"
    by (auto; linarith)
  then have "- b < b * (q - of_int (if 0 \<le> q then \<lfloor>q\<rfloor> else - \<lfloor>- q\<rfloor>)) \<and>
             b * (q - of_int (if 0 \<le> q then \<lfloor>q\<rfloor> else - \<lfloor>- q\<rfloor>)) < b"
    using b by (metis mult.right_neutral mult_less_cancel_left_pos mult_minus_right)
  then show ?thesis unfolding c_fmod_def q_def [symmetric] using a by (simp add: algebra_simps)
qed

lemma c_fmod_id: "0 \<le> a \<Longrightarrow> a < b \<Longrightarrow> c_fmod a b = a"
proof -
  assume a: "0 \<le> a" "a < b"
  then have "0 \<le> a / b" "\<lfloor>a / b\<rfloor> = 0" by (simp_all add: floor_eq_iff)
  then show ?thesis by (simp add: c_fmod_def)
qed

lemma fp_round_360: "fp_round 360 = 360"
  by (simp add: fp_round_numeral)

lemma py_mod_fp_range: "0 \<le> py_mod_fp a 360 \<and> py_mod_fp a 360 \<le> 360"
proof -
  let ?m = "c_fmod a 360"
  have r: "- 360 < ?m" "?m < 360" using c_fmod_range [of 360 a] by simp_all
  show ?thesis
  proof (cases "?m < 0")
    case True
    then have "0 \<le> ?m + 360" "?m + 360 \<le> 360" using r by simp_all
    then have "fp_round 0 \<le> fp_round (?m + 360)" "fp_round (?m + 360) \<le> fp_round 360"
      by (simp_all only: fp_round_mono)
    then show ?thesis using True by (simp add: py_mod_fp_def fp_round_zero fp_round_360)
  next
    case False
    then show ?thesis using r by (simp add: py_mod_fp_def Let_def)
  qed
qed

lemma py_mod_fp_id: "0 \<le> a \<Longrightarrow> a < 360 \<Longrightarrow> py_mod_fp a 360 = a"
  by (simp add: py_mod_fp_def c_fmod_id)

lemma cw_sweep_fp_nonneg: "0 \<le> cw_sweep_fp cal"
  unfolding cw_sweep_fp_def using py_mod_fp_range by blast

lemma angle_to_value_fp_Inr:
  "angle_to_value_fp cal angle =
     Inr (if cw_sweep_fp cal < fp_round 0.001 then min_value cal
          else fp_round (min_value cal +
                 fp_round (max 0 (min 1 (fp_round
                     (py_mod_fp (fp_round (normalize_fp (min_angle cal) - normalize_fp angle)) 360
                      / cw_sweep_fp cal))) *
                   fp_round (max_value cal - min_value cal))))"
proof (cases "cw_sweep_fp cal < fp_round 0.001")
  case True
  then show ?thesis by (simp add: angle_to_value_fp_def)
next
  case False
  have "0 < fp_round (1 / 1000)" unfolding fp_round_milli by simp
  then have "cw_sweep_fp cal \<noteq> 0" using False by simp
  then show ?thesis using False
    by (simp add: angle_to_value_fp_def py_truediv_fp_def py_bind_def Let_def)
qed

lemma normalize_fp_range: "0 \<le> normalize_fp \<theta> \<and> normalize_fp \<theta> \<le> 360"
  unfolding normalize_fp_def by (rule py_mod_fp_range)

lemma normalize_fp_idem:
  "normalize_fp \<theta> < 360 \<Longrightarrow> normalize_fp (normalize_fp \<theta>) = normalize_fp \<theta>"
  using normalize_fp_range [of \<theta>] by (simp add: normalize_fp_def py_mod_fp_id)

lemma angle_to_value_fp_periodic_below:
  "normalize_fp \<theta> < 360 \<Longrightarrow>
   angle_to_value_fp cal (normalize_fp \<theta>) = angle_to_value_fp cal \<theta>"
  by (simp add: angle_to_value_fp_def normalize_fp_idem)

lemma in_range_zero: "in_range 0"
  by (simp add: in_range_def is_float_def fp_round_zero)

lemmas fp_eval = py_mod_fp_def c_fmod_def normalize_fp_def cw_sweep_fp_def Let_def
  fp_round_numeral fp_round_neg_numeral fp_round_zero fp_round_one fp_round_milli

lemma sweep_225_m45:
  "cw_sweep_fp \<lparr>min_value = lo, max_value = hi, min_angle = 225, max_angle = - 45, unit = u\<rparr> = 270"
  by (simp add: fp_eval)

lemma angle_to_value_fp_eval:
  assumes "cw_sweep_fp cal = s" "\<not> s < fp_round 0.001"
    and "py_mod_fp (fp_round (normalize_fp (min_angle cal) - normalize_fp \<theta>)) 360 = n"
    and "max 0 (min 1 (fp_round (n / s))) = f"
    and "fp_round (max_value cal - min_value cal) = d"
    and "fp_round (f * d) = p"
    and "fp_round (min_value cal + p) = v"
  shows "angle_to_value_fp cal \<theta> = Inr v"
  using assms by (simp add: angle_to_value_fp_Inr)

text \<open>
  Claim C1, as the code has it. For a calibration whose \<open>min_value\<close> and \<open>max_value\<close>
  are floats with \<open>min_value \<le> max_value\<close>, and any angle, \<open>angle_to_value\<close> returns
  a value that is never below \<open>min_value\<close> and never above the value it returns for the
  fraction 1, the rounded sum \<open>min_value + (max_value - min_value)\<close>. That sum is
  \<open>max_value\<close> up to the rounding of its two operations, so the value exceeds
  \<open>max_value\<close> by at most \<open>(|max_value| + (max_value - min_value)) / 2\<^sup>5\<^sup>2 + 3 / 2\<^sup>1\<^sup>0\<^sup>7\<^sup>5\<close>.
\<close>

theorem angle_to_value_fp_clamped:
  assumes "in_range (min_value cal)" "in_range (max_value cal)"
    and "min_value cal \<le> max_value cal"
  shows "\<exists>v. angle_to_value_fp cal \<theta> = Inr v \<and> min_value cal \<le> v \<and>
             v \<le> fp_round (min_value cal + fp_round (max_value cal - min_value cal)) \<and>
             v \<le> max_value cal +
                 ((\<bar>max_value cal\<bar> + (max_value cal - min_value cal)) / 2 ^ 52 + 3 / 2 ^ 1075)"
proof -
  let ?lo = "min_value cal"
  let ?d = "fp_round (max_value cal - min_value cal)"
  define f where
    "f = max 0 (min 1 (fp_round
           (py_mod_fp (fp_round (normalize_fp (min_angle cal) - normalize_fp \<theta>)) 360
            / cw_sweep_fp cal)))"
  have f: "0 \<le> f" "f \<le> 1" by (simp_all add: f_def)
  have lo: "fp_round ?lo = ?lo" using assms(1) by (simp add: in_range_def is_float_def)
  have "fp_round 0 \<le> ?d" using assms(3) by (intro fp_round_mono) simp
  then have d: "0 \<le> ?d" by (simp add: fp_round_zero)
  have fd: "0 \<le> f * ?d" "f * ?d \<le> ?d"
    using f d by (simp_all add: mult_left_le_one_le)
  have "fp_round 0 \<le> fp_round (f * ?d)" "fp_round (f * ?d) \<le> fp_round ?d"
    using fd by (simp_all only: fp_round_mono)
  then have r: "0 \<le> fp_round (f * ?d)" "fp_round (f * ?d) \<le> ?d"
    by (simp_all add: fp_round_zero fp_round_idem)
  have "fp_round ?lo \<le> fp_round (?lo + fp_round (f * ?d))"
       "fp_round (?lo + fp_round (f * ?d)) \<le> fp_round (?lo + ?d)"
    using r by (simp_all only: fp_round_mono add_le_cancel_left le_add_same_cancel1)
  then have v: "?lo \<le> fp_round (?lo + fp_round (f * ?d))"
       "fp_round (?lo + fp_round (f * ?d)) \<le> fp_round (?lo + ?d)"
    by (simp_all add: lo)
  have top: "?lo \<le> fp_round (?lo + ?d)" using v by linarith
  have "\<bar>max_value cal - min_value cal\<bar> = max_value cal - min_value cal"
    using assms(3) by simp
  then have tol: "fp_round (?lo + ?d)
      \<le> max_value cal + ((\<bar>max_value cal\<bar> + (max_value cal - min_value cal)) / 2 ^ 52 + 3 / 2 ^ 1075)"
    using span_roundtrip [of ?lo "max_value cal"] by linarith
  have tol_lo: "?lo
      \<le> max_value cal + ((\<bar>max_value cal\<bar> + (max_value cal - min_value cal)) / 2 ^ 52 + 3 / 2 ^ 1075)"
    using top tol by linarith
  have tol_v: "fp_round (?lo + fp_round (f * ?d))
      \<le> max_value cal + ((\<bar>max_value cal\<bar> + (max_value cal - min_value cal)) / 2 ^ 52 + 3 / 2 ^ 1075)"
    using v(2) tol by linarith
  show ?thesis
    unfolding angle_to_value_fp_Inr f_def [symmetric] using v top tol_lo tol_v by simp
qed

theorem angle_to_value_fp_clamped_witness:
  "in_range 0 \<and> in_range 10 \<and>
   (\<exists>v. angle_to_value_fp
          \<lparr>min_value = 0, max_value = 10, min_angle = 225, max_angle = - 45, unit = ''kg/cm2''\<rparr>
          (- 60) = Inr v \<and> 0 \<le> v \<and> v \<le> 10)"
proof -
  have r: "in_range 0" "in_range 10"
    by (simp_all add: in_range_def is_float_def fp_round_zero fp_round_numeral)
  show ?thesis
    using r angle_to_value_fp_clamped
      [of "\<lparr>min_value = 0, max_value = 10, min_angle = 225, max_angle = - 45, unit = ''kg/cm2''\<rparr>"
          "- 60"]
    by (auto simp add: fp_round_numeral)
qed

text \<open>
  The interval of the specification is exceeded by rounding. With \<open>min_value = -3.9\<close>
  (the float \<open>-8782019273372467 / 2\<^sup>5\<^sup>1\<close>), \<open>max_value = 2.0\<close>, \<open>min_angle = 225\<close> and
  \<open>max_angle = -45\<close>, the angle \<open>-60\<close> lies past the max end of the sweep, the fraction
  is clamped to \<open>1.0\<close>, and the code returns \<open>-3.9 + 1.0 * (2.0 - -3.9)\<close>, which is
  \<open>2.0000000000000004\<close>, above \<open>max_value\<close>.
\<close>

theorem angle_to_value_fp_clamped_counterexample:
  "angle_to_value_fp
     \<lparr>min_value = - (8782019273372467 / 2 ^ 51), max_value = 2, min_angle = 225,
      max_angle = - 45, unit = ''kg/cm2''\<rparr> (- 60) = Inr (2 + 1 / 2 ^ 51) \<and>
   \<not> (2 + 1 / 2 ^ 51 \<le>
        max_value \<lparr>min_value = - (8782019273372467 / 2 ^ 51), max_value = 2, min_angle = 225,
                   max_angle = - 45, unit = ''kg/cm2''\<rparr>)"
proof -
  let ?cal = "\<lparr>min_value = - (8782019273372467 / 2 ^ 51), max_value = 2, min_angle = 225,
      max_angle = - 45, unit = ''kg/cm2''\<rparr>"
  have d: "fp_round (2 + 8782019273372467 / 2 ^ 51) = 3321404725185741 / 2 ^ 49"
    by (subst fp_round_eval [where e = 2]) (simp_all add: round_half_even_def)
  have "angle_to_value_fp ?cal (- 60) = Inr (2 + 1 / 2 ^ 51)"
  proof (rule angle_to_value_fp_eval)
    show "cw_sweep_fp ?cal = 270" by (rule sweep_225_m45)
    show "\<not> (270::real) < fp_round 0.001" by (simp add: fp_round_milli)
    show "py_mod_fp (fp_round (normalize_fp (min_angle ?cal) - normalize_fp (- 60))) 360 = 285"
      by (simp add: fp_eval)
    have "fp_round 1 \<le> fp_round (285 / 270)" by (rule fp_round_mono) simp
    then show "max 0 (min 1 (fp_round (285 / 270))) = 1" by (simp add: fp_round_one)
    show "fp_round (max_value ?cal - min_value ?cal) = 3321404725185741 / 2 ^ 49"
      using d by simp
    show "fp_round (1 * (3321404725185741 / 2 ^ 49)) = 3321404725185741 / 2 ^ 49"
      using fp_round_idem [of "2 + 8782019273372467 / 2 ^ 51"] unfolding d by simp
    show "fp_round (min_value ?cal + 3321404725185741 / 2 ^ 49) = 2 + 1 / 2 ^ 51"
      by (subst fp_round_eval [where e = 1]) (simp_all add: round_half_even_def)
  qed
  then show ?thesis by simp
qed

text \<open>
  Claim C2, as the code has it. For a calibration whose \<open>min_value\<close> and \<open>max_value\<close>
  are floats, \<open>angle_to_value\<close> maps \<open>min_angle\<close> to \<open>min_value\<close>. It maps
  \<open>max_angle\<close> to \<open>min_value\<close> when the clockwise sweep is below \<open>0.001\<close> (the
  degenerate-sweep guard), and otherwise to the rounded sum
  \<open>min_value + (max_value - min_value)\<close>, which is \<open>max_value\<close> within the floating
  tolerance \<open>(|max_value| + |max_value - min_value|) / 2\<^sup>5\<^sup>2 + 3 / 2\<^sup>1\<^sup>0\<^sup>7\<^sup>5\<close>.
\<close>

theorem angle_to_value_fp_endpoints:
  assumes "in_range (min_value cal)" "in_range (max_value cal)"
  shows "angle_to_value_fp cal (min_angle cal) = Inr (min_value cal) \<and>
         angle_to_value_fp cal (max_angle cal)
           = Inr (if cw_sweep_fp cal < fp_round 0.001 then min_value cal
                  else fp_round (min_value cal + fp_round (max_value cal - min_value cal))) \<and>
         \<bar>fp_round (min_value cal + fp_round (max_value cal - min_value cal)) - max_value cal\<bar>
           \<le> (\<bar>max_value cal\<bar> + \<bar>max_value cal - min_value cal\<bar>) / 2 ^ 52 + 3 / 2 ^ 1075"
proof -
  have lo: "fp_round (min_value cal) = min_value cal"
    using assms(1) by (simp add: in_range_def is_float_def)
  have z: "py_mod_fp 0 360 = 0" by (simp add: py_mod_fp_def c_fmod_def)
  have a: "angle_to_value_fp cal (min_angle cal) = Inr (min_value cal)"
    by (simp add: angle_to_value_fp_Inr fp_round_zero z lo)
  have b: "angle_to_value_fp cal (max_angle cal)
           = Inr (if cw_sweep_fp cal < fp_round 0.001 then min_value cal
                  else fp_round (min_value cal + fp_round (max_value cal - min_value cal)))"
  proof (cases "cw_sweep_fp cal < fp_round 0.001")
    case True
    then show ?thesis by (simp add: angle_to_value_fp_Inr)
  next
    case False
    have "0 < fp_round (1 / 1000)" unfolding fp_round_milli by simp
    then have nz: "cw_sweep_fp cal \<noteq> 0" using False by simp
    have "py_mod_fp (fp_round (normalize_fp (min_angle cal) - normalize_fp (max_angle cal))) 360
            / cw_sweep_fp cal = 1"
      using nz by (simp add: cw_sweep_fp_def)
    then show ?thesis using False
      by (simp add: angle_to_value_fp_Inr fp_round_one fp_round_idem)
  qed
  from a b span_roundtrip [of "min_value cal" "max_value cal"] show ?thesis by blast
qed

theorem angle_to_value_fp_endpoints_witness:
  "angle_to_value_fp \<lparr>min_value = 0, max_value = 10, min_angle = 225, max_angle = - 45, unit = ''kg/cm2''\<rparr>
     225 = Inr 0 \<and>
   angle_to_value_fp \<lparr>min_value = 0, max_value = 10, min_angle = 225, max_angle = - 45, unit = ''kg/cm2''\<rparr>
     (- 45) = Inr 10"
  using angle_to_value_fp_endpoints
    [of "\<lparr>min_value = 0, max_value = 10, min_angle = 225, max_angle = - 45, unit = ''kg/cm2''\<rparr>"]
  by (simp add: in_range_def is_float_def sweep_225_m45 fp_round_milli fp_round_numeral fp_round_zero)

text \<open>
  Claim C7 is not met by the code. The docstring and the comment of \<open>angle_to_value\<close>
  say that all angles are normalised into \<open>[0, 360)\<close>, but the float \<open>%\<close> adds 360 to a
  negative remainder and rounds: for the angle \<open>-2\<^sup>-\<^sup>7\<^sup>0\<close> the normalised angle is
  \<open>360.0\<close>. With \<open>min_angle = 2\<^sup>-\<^sup>5\<^sup>0\<close>, \<open>max_angle = 104\<close>, \<open>min_value = 0\<close> and
  \<open>max_value = 10\<close> the code returns 0 for this angle and \<open>10 / 2\<^sup>5\<^sup>8\<close> for the
  normalised angle. (By \<open>angle_to_value_fp_periodic_below\<close>, normalising first changes
  nothing whenever the normalised angle is below 360.)
\<close>

theorem angle_to_value_fp_periodic_failure:
  "normalize_fp (- (1 / 2 ^ 70)) = 360 \<and>
   angle_to_value_fp
     \<lparr>min_value = 0, max_value = 10, min_angle = 1 / 2 ^ 50, max_angle = 104, unit = ''kg/cm2''\<rparr>
     (- (1 / 2 ^ 70)) = Inr 0 \<and>
   angle_to_value_fp
     \<lparr>min_value = 0, max_value = 10, min_angle = 1 / 2 ^ 50, max_angle = 104, unit = ''kg/cm2''\<rparr>
     (normalize_fp (- (1 / 2 ^ 70))) = Inr (10 / 2 ^ 58)"
proof -
  let ?cal = "\<lparr>min_value = 0, max_value = 10, min_angle = 1 / 2 ^ 50, max_angle = 104,
                unit = ''kg/cm2''\<rparr>"
  have sel: "min_angle ?cal = 1 / 2 ^ 50" "max_angle ?cal = 104"
    "min_value ?cal = 0" "max_value ?cal = 10"
    by simp_all
  have r360: "fp_round (- (1 / 2 ^ 70) + 360) = 360"
    by (subst fp_round_eval [where e = 8]) (simp_all add: round_half_even_def)
  have c: "c_fmod (- (1 / 2 ^ 70)) 360 = - (1 / 2 ^ 70)"
    by (simp add: c_fmod_def)
  have n: "normalize_fp (- (1 / 2 ^ 70)) = 360"
    unfolding normalize_fp_def py_mod_fp_def Let_def c r360 by simp
  have n360: "normalize_fp 360 = 0"
    by (simp add: normalize_fp_def py_mod_fp_def c_fmod_def)
  have nmin: "normalize_fp (1 / 2 ^ 50) = 1 / 2 ^ 50"
    unfolding normalize_fp_def by (rule py_mod_fp_id) simp_all
  have nmax: "normalize_fp 104 = 104"
    unfolding normalize_fp_def by (rule py_mod_fp_id) simp_all
  have r104: "fp_round (1 / 2 ^ 50 - 104) = - 104"
    by (subst fp_round_eval [where e = 6]) (simp_all add: round_half_even_def)
  have rm360: "fp_round (1 / 2 ^ 50 - 360) = - 360"
    by (subst fp_round_eval [where e = 8]) (simp_all add: round_half_even_def)
  have r50: "fp_round (1 / 2 ^ 50) = 1 / 2 ^ 50"
    using fp_round_div_pow2 [of 1 50] by simp
  have r58: "fp_round (1 / 2 ^ 58) = 1 / 2 ^ 58"
    using fp_round_div_pow2 [of 1 58] by simp
  have r10: "fp_round (10 / 2 ^ 58) = 10 / 2 ^ 58"
    using fp_round_div_pow2 [of 10 58] by simp
  have m104: "py_mod_fp (- 104) 360 = 256"
    by (simp add: py_mod_fp_def c_fmod_def fp_round_numeral)
  have m360: "py_mod_fp (- 360) 360 = 0"
    by (simp add: py_mod_fp_def c_fmod_def)
  have m50: "py_mod_fp (1 / 2 ^ 50) 360 = 1 / 2 ^ 50"
    by (rule py_mod_fp_id) simp_all
  have sweep: "cw_sweep_fp ?cal = 256"
    unfolding cw_sweep_fp_def sel nmin nmax r104 m104 ..
  have big: "\<not> (256::real) < fp_round 0.001" by (simp add: fp_round_milli)
  have d: "fp_round (max_value ?cal - min_value ?cal) = 10"
    unfolding sel by (simp add: fp_round_numeral)
  have a: "angle_to_value_fp ?cal (- (1 / 2 ^ 70)) = Inr 0"
  proof (rule angle_to_value_fp_eval)
    show "cw_sweep_fp ?cal = 256" by (rule sweep)
    show "\<not> (256::real) < fp_round 0.001" by (rule big)
    show "py_mod_fp (fp_round (normalize_fp (min_angle ?cal) - normalize_fp (- (1 / 2 ^ 70)))) 360 = 0"
      unfolding sel n nmin rm360 m360 ..
    show "max 0 (min 1 (fp_round (0 / 256))) = 0" by (simp add: fp_round_zero)
    show "fp_round (max_value ?cal - min_value ?cal) = 10" by (rule d)
    show "fp_round (0 * 10) = 0" by (simp add: fp_round_zero)
    show "fp_round (min_value ?cal + 0) = 0" by (simp add: fp_round_zero)
  qed
  have b: "angle_to_value_fp ?cal 360 = Inr (10 / 2 ^ 58)"
  proof (rule angle_to_value_fp_eval)
    show "cw_sweep_fp ?cal = 256" by (rule sweep)
    show "\<not> (256::real) < fp_round 0.001" by (rule big)
    have "(1 / 2 ^ 50 - 0 :: real) = 1 / 2 ^ 50" by simp
    then show "py_mod_fp (fp_round (normalize_fp (min_angle ?cal) - normalize_fp 360)) 360
        = 1 / 2 ^ 50"
      unfolding sel n360 nmin by (simp only: r50 m50)
    have "(1 / 2 ^ 50 / 256 :: real) = 1 / 2 ^ 58" by simp
    then have "fp_round (1 / 2 ^ 50 / 256) = 1 / 2 ^ 58" by (simp only: r58)
    then show "max 0 (min 1 (fp_round (1 / 2 ^ 50 / 256))) = 1 / 2 ^ 58"
      by (simp only:) simp
    show "fp_round (max_value ?cal - min_value ?cal) = 10" by (rule d)
    have "(1 / 2 ^ 58 * 10 :: real) = 10 / 2 ^ 58" by simp
    then show "fp_round (1 / 2 ^ 58 * 10) = 10 / 2 ^ 58" by (simp only: r10)
    have "(min_value ?cal + 10 / 2 ^ 58 :: real) = 10 / 2 ^ 58" by simp
    then show "fp_round (min_value ?cal + 10 / 2 ^ 58) = 10 / 2 ^ 58" by (simp only: r10)
  qed
  show ?thesis unfolding n using a b by (simp only: simp_thms)
qed

section \<open>The needle angle\<close>

lemma fval_fsub: "fval (fsub a b) = fval a - fval b"
  by (cases a; cases b) simp_all

lemma fval_fneg: "fval (fneg a) = - fval a"
  by (cases a) simp_all

lemma fval_degrees: "fval (degrees a) = fval a * 180 / pi"
  by (cases a) simp_all

lemma fsub_self: "fsub a a = Fl 0"
  by (cases a) simp_all

lemma signbit_fsub_pos: "fval b < fval a \<Longrightarrow> \<not> signbit (fsub a b)"
  by (cases a; cases b) simp_all

text \<open>The result of \<open>atan2\<close> lies between \<open>-\<pi>\<close> and \<open>\<pi>\<close>.\<close>

lemma atan2_range:
  "- pi \<le> fval (atan2 y x) \<and> fval (atan2 y x) \<le> pi"
proof (cases "fval y = 0")
  case True
  then show ?thesis by (simp add: atan2_def copysign_def)
next
  case False
  let ?a = "arctan (fval y / fval x)"
  have lb: "- (pi / 2) < ?a" by (rule arctan_lbound)
  have ub: "?a < pi / 2" by (rule arctan_ubound)
  consider (pos) "0 < fval x" | (negpos) "fval x < 0" "0 < fval y"
    | (negneg) "fval x < 0" "fval y < 0" | (zero) "fval x = 0"
    using False by linarith
  then show ?thesis
  proof cases
    case pos
    then have "fval (atan2 y x) = ?a" using False by (simp add: atan2_def)
    then show ?thesis using lb ub pi_gt_zero by linarith
  next
    case negpos
    then have "fval y / fval x < 0" by (simp add: divide_pos_neg)
    then have "?a < 0" by simp
    moreover have "fval (atan2 y x) = ?a + pi" using False negpos by (simp add: atan2_def)
    ultimately show ?thesis using lb pi_gt_zero by linarith
  next
    case negneg
    then have "0 < fval y / fval x" by (simp add: divide_neg_neg)
    then have "0 < ?a" by simp
    moreover have "fval (atan2 y x) = ?a - pi" using False negneg by (simp add: atan2_def)
    ultimately show ?thesis using ub pi_gt_zero by linarith
  next
    case zero
    then have "fval (atan2 y x) = (if 0 < fval y then pi / 2 else - (pi / 2))"
      using False by (simp add: atan2_def)
    then have "fval (atan2 y x) = pi / 2 \<or> fval (atan2 y x) = - (pi / 2)" by presburger
    then show ?thesis using pi_gt_zero by linarith
  qed
qed

lemma degrees_bounds:
  "(- pi \<le> r \<longrightarrow> - 180 \<le> r * 180 / pi) \<and> (r \<le> pi \<longrightarrow> r * 180 / pi \<le> 180)"
  using pi_gt_zero by (simp add: field_simps)

lemma compute_angle_same: "fval (compute_angle p p) = 0"
  by (simp add: compute_angle_def fsub_self atan2_def copysign_def)

text \<open>
  Claim C5, as the code has it. \<open>compute_angle\<close> is \<open>atan2\<close> of
  \<open>-(tip.y - center.y)\<close> and \<open>tip.x - center.x\<close>, converted to degrees. Its result lies
  in the closed range from \<open>-180\<close> to \<open>180\<close>, the range the docstring of the function
  gives. A tip directly above the centre gives 90, directly to the right 0, directly
  below \<open>-90\<close>.
\<close>

theorem compute_angle_range:
  "compute_angle c t
     = degrees (atan2 (fneg (fsub (snd t) (snd c))) (fsub (fst t) (fst c))) \<and>
   - 180 \<le> fval (compute_angle c t) \<and> fval (compute_angle c t) \<le> 180 \<and>
   (fval (fst t) = fval (fst c) \<and> fval (snd t) < fval (snd c)
      \<longrightarrow> fval (compute_angle c t) = 90) \<and>
   (fval (snd t) = fval (snd c) \<and> fval (fst c) < fval (fst t)
      \<longrightarrow> fval (compute_angle c t) = 0) \<and>
   (fval (fst t) = fval (fst c) \<and> fval (snd c) < fval (snd t)
      \<longrightarrow> fval (compute_angle c t) = - 90)"
proof -
  let ?dy = "fneg (fsub (snd t) (snd c))"
  let ?dx = "fsub (fst t) (fst c)"
  let ?r = "fval (atan2 ?dy ?dx)"
  have eq: "compute_angle c t = degrees (atan2 ?dy ?dx)"
    by (simp add: compute_angle_def)
  have val: "fval (compute_angle c t) = ?r * 180 / pi"
    by (simp add: eq fval_degrees)
  have r: "- pi \<le> ?r" "?r \<le> pi"
    using atan2_range [of ?dy ?dx] by simp_all
  have lo: "- 180 \<le> fval (compute_angle c t)"
    unfolding val using r(1) degrees_bounds [of ?r] by simp
  have hi: "fval (compute_angle c t) \<le> 180"
    unfolding val using r(2) degrees_bounds [of ?r] by simp
  have up: "fval (fst t) = fval (fst c) \<and> fval (snd t) < fval (snd c)
      \<longrightarrow> fval (compute_angle c t) = 90"
    by (simp add: val atan2_def fval_fsub fval_fneg)
  have right: "fval (snd t) = fval (snd c) \<and> fval (fst c) < fval (fst t)
      \<longrightarrow> fval (compute_angle c t) = 0"
    by (simp add: val atan2_def fval_fsub fval_fneg signbit_fsub_pos copysign_def)
  have down: "fval (fst t) = fval (fst c) \<and> fval (snd c) < fval (snd t)
      \<longrightarrow> fval (compute_angle c t) = - 90"
    by (simp add: val atan2_def fval_fsub fval_fneg)
  from eq lo hi up right down show ?thesis by blast
qed

theorem compute_angle_range_witness:
  "fval (compute_angle (Fl 320, Fl 240) (Fl 320, Fl 100)) = 90 \<and>
   fval (compute_angle (Fl 320, Fl 240) (Fl 400, Fl 240)) = 0 \<and>
   fval (compute_angle (Fl 320, Fl 240) (Fl 320, Fl 300)) = - 90"
  using compute_angle_range [of "(Fl 320, Fl 240)" "(Fl 320, Fl 100)", THEN conjunct2]
    compute_angle_range [of "(Fl 320, Fl 240)" "(Fl 400, Fl 240)", THEN conjunct2]
    compute_angle_range [of "(Fl 320, Fl 240)" "(Fl 320, Fl 300)", THEN conjunct2]
  by simp

text \<open>
  The half-open range \<open>(-180, 180]\<close> of the specification fails for a tip directly to the
  left of the centre, with float coordinates as \<open>detect_gauge\<close> produces them: for the
  centre \<open>(320.0, 240.0)\<close> and the tip \<open>(200.0, 240.0)\<close>, \<open>dx\<close> is \<open>-120.0\<close> and
  \<open>dy = -(240.0 - 240.0)\<close> is the negative zero \<open>-0.0\<close>, so \<open>math.atan2\<close> returns
  \<open>-\<pi>\<close> and the angle is \<open>-180.0\<close>.
\<close>

theorem compute_angle_range_counterexample:
  "compute_angle (Fl 320, Fl 240) (Fl 200, Fl 240) = Fl (- 180) \<and>
   \<not> (- 180 < fval (compute_angle (Fl 320, Fl 240) (Fl 200, Fl 240)))"
  by (simp add: compute_angle_def atan2_def copysign_def)

section \<open>Filtering the detections and assembling the readings\<close>

lemma angle_to_value_spec_value: "angle_to_value cal angle = Inr (spec_value cal angle)"
  by (simp add: angle_to_value_Inr spec_value_def cw_sweep_def normalize_deg_def Let_def)

text \<open>One turn of the loop: the reading is appended exactly when the detection passes.\<close>

lemma read_gauge_loop_step:
  "read_gauge_loop cal (det # dets) readings =
     read_gauge_loop cal dets
       (if spec_passes_filters det then readings @ [spec_reading cal det] else readings)"
  by (simp add: spec_passes_filters_def spec_reading_def Let_def py_bind_def py_getitem_def
      angle_to_value_spec_value not_less)

lemma read_gauge_loop_eq:
  "read_gauge_loop cal dets readings =
     Inr (readings @ map (spec_reading cal) (filter spec_passes_filters dets))"
proof (induction dets arbitrary: readings)
  case Nil
  show ?case by simp
next
  case (Cons det dets)
  show ?case unfolding read_gauge_loop_step Cons.IH by simp
qed

lemma py_round_zero: "py_round 0 n = 0"
  by (simp add: py_round_def round_half_even_def)

text \<open>
  Claim C6. \<open>read_gauge\<close> returns, without an exception, the readings of exactly the
  detections that have at least 2 keypoints and both keypoint confidences at least 0.3,
  one reading each, in the order of the detections. The reading of a detection is a
  function of that detection and the calibration alone, so a skipped detection changes
  nothing for the others; the empty list of detections gives the empty list of readings.
\<close>

theorem read_gauge_filter_map:
  "read_gauge cal dets = Inr (map (spec_reading cal) (filter spec_passes_filters dets)) \<and>
   read_gauge cal [] = Inr []"
  by (simp add: read_gauge_def read_gauge_loop_eq)

theorem read_gauge_filter_map_witness:
  "read_gauge \<lparr>min_value = 0, max_value = 10, min_angle = 225, max_angle = - 45, unit = ''kg/cm2''\<rparr>
     [\<lparr>bbox = [0, 0, 10, 10],
       keypoints = [\<lparr>kp_x = Fl 5, kp_y = Fl 5, kp_conf = 0.2\<rparr>,
                    \<lparr>kp_x = Fl 5, kp_y = Fl 1, kp_conf = 0.9\<rparr>],
       det_conf = 0.8\<rparr>,
      \<lparr>bbox = [20, 0, 30, 10],
       keypoints = [\<lparr>kp_x = Fl 25, kp_y = Fl 5, kp_conf = 0.9\<rparr>],
       det_conf = 0.7\<rparr>,
      \<lparr>bbox = [40, 0, 50, 10],
       keypoints = [\<lparr>kp_x = Fl 45, kp_y = Fl 5, kp_conf = 0.3\<rparr>,
                    \<lparr>kp_x = Fl 45, kp_y = Fl 1, kp_conf = 0.9\<rparr>],
       det_conf = 0.6\<rparr>]
   = Inr [\<lparr>r_value = 5, r_angle = 90, r_unit = ''kg/cm2'', r_bbox = [40, 0, 50, 10],
           r_center = (Fl 45, Fl 5), r_needle_tip = (Fl 45, Fl 1), r_confidence = 0.6,
           r_kp_center_conf = 0.3, r_kp_needle_conf = 0.9\<rparr>]"
proof -
  let ?cal = "\<lparr>min_value = 0, max_value = 10, min_angle = 225, max_angle = - 45, unit = ''kg/cm2''\<rparr>"
  let ?d1 = "\<lparr>bbox = [0, 0, 10, 10],
       keypoints = [\<lparr>kp_x = Fl 5, kp_y = Fl 5, kp_conf = 0.2\<rparr>,
                    \<lparr>kp_x = Fl 5, kp_y = Fl 1, kp_conf = 0.9\<rparr>],
       det_conf = 0.8\<rparr>"
  let ?d2 = "\<lparr>bbox = [20, 0, 30, 10],
       keypoints = [\<lparr>kp_x = Fl 25, kp_y = Fl 5, kp_conf = 0.9\<rparr>],
       det_conf = 0.7\<rparr>"
  let ?d3 = "\<lparr>bbox = [40, 0, 50, 10],
       keypoints = [\<lparr>kp_x = Fl 45, kp_y = Fl 5, kp_conf = 0.3\<rparr>,
                    \<lparr>kp_x = Fl 45, kp_y = Fl 1, kp_conf = 0.9\<rparr>],
       det_conf = 0.6\<rparr>"
  have f: "\<not> spec_passes_filters ?d1" "\<not> spec_passes_filters ?d2" "spec_passes_filters ?d3"
    by (simp_all add: spec_passes_filters_def)
  have a: "fval (compute_angle (Fl 45, Fl 5) (Fl 45, Fl 1)) = 90"
    by (simp add: compute_angle_def atan2_def)
  have v: "spec_value ?cal 90 = 5"
    by (simp add: spec_value_def py_mod_def)
  have rd: "py_round 5 3 = 5" "py_round 90 2 = 90"
    by (simp_all add: py_round_def round_half_even_def)
  have r: "spec_reading ?cal ?d3 =
    \<lparr>r_value = 5, r_angle = 90, r_unit = ''kg/cm2'', r_bbox = [40, 0, 50, 10],
      r_center = (Fl 45, Fl 5), r_needle_tip = (Fl 45, Fl 1), r_confidence = 0.6,
      r_kp_center_conf = 0.3, r_kp_needle_conf = 0.9\<rparr>"
    by (simp add: spec_reading_def a v rd)
  show ?thesis
    using read_gauge_filter_map [of ?cal "[?d1, ?d2, ?d3]", THEN conjunct1] f r by simp
qed

text \<open>
  Claim C8. \<open>angle_to_value\<close> and \<open>read_gauge\<close> always return a result: no exception
  of the model (division by zero, index out of range) escapes them. The division by
  \<open>cw_sweep\<close> cannot raise: either the degeneracy check has returned before it, or the
  divisor is not zero and the division yields the quotient.
\<close>

theorem gauge_reader_total:
  "(\<exists>v. angle_to_value cal \<theta> = Inr v) \<and>
   (\<exists>rs. read_gauge cal dets = Inr rs) \<and>
   (cw_sweep cal < 0.001 \<or> py_truediv x (cw_sweep cal) = Inr (x / cw_sweep cal))"
  by (simp add: angle_to_value_Inr read_gauge_def read_gauge_loop_eq py_truediv_def)

text \<open>
  Claim C9. \<open>compute_angle\<close> of a point and itself is 0 degrees, and the zero-length
  needle is not filtered: a detection whose first two keypoints are the same point, with
  both confidences at least 0.3, yields one reading, whose angle is 0.
\<close>

theorem compute_angle_zero_needle:
  "fval (compute_angle p p) = 0 \<and>
   (keypoints det = \<lparr>kp_x = fst p, kp_y = snd p, kp_conf = c0\<rparr> #
                    \<lparr>kp_x = fst p, kp_y = snd p, kp_conf = c1\<rparr> # rest \<and>
    0.3 \<le> c0 \<and> 0.3 \<le> c1
    \<longrightarrow> (\<exists>r. read_gauge cal [det] = Inr [r] \<and> r_angle r = 0 \<and>
             r_center r = p \<and> r_needle_tip r = p))"
  by (simp add: read_gauge_def read_gauge_loop_eq spec_passes_filters_def spec_reading_def
      compute_angle_same py_round_zero)

theorem compute_angle_zero_needle_witness:
  "\<exists>r. read_gauge
          \<lparr>min_value = 0, max_value = 10, min_angle = 225, max_angle = - 45, unit = ''kg/cm2''\<rparr>
          [\<lparr>bbox = [0, 0, 10, 10],
            keypoints = [\<lparr>kp_x = Fl 5, kp_y = Fl 5, kp_conf = 0.9\<rparr>,
                         \<lparr>kp_x = Fl 5, kp_y = Fl 5, kp_conf = 0.8\<rparr>],
            det_conf = 0.8\<rparr>] = Inr [r] \<and>
        r_angle r = 0 \<and> r_center r = (Fl 5, Fl 5) \<and> r_needle_tip r = (Fl 5, Fl 5)"
  using compute_angle_zero_needle
    [of "(Fl 5, Fl 5)"
        "\<lparr>bbox = [0, 0, 10, 10],
          keypoints = [\<lparr>kp_x = Fl 5, kp_y = Fl 5, kp_conf = 0.9\<rparr>,
                       \<lparr>kp_x = Fl 5, kp_y = Fl 5, kp_conf = 0.8\<rparr>],
          det_conf = 0.8\<rparr>"
        "0.9" "0.8" "[]"
        "\<lparr>min_value = 0, max_value = 10, min_angle = 225, max_angle = - 45, unit = ''kg/cm2''\<rparr>"]
  by simp

end
